theory Spec2Isabelle
  imports Complex_Main "HOL-Library.Word" "HOL-Library.Log_Nat"
begin

section \<open>Numeric types of the program\<close>

subsection \<open>float64\<close>

text \<open>
  A finite float64 value is the real number it denotes. Every float64 operation of the
  program that IEEE 754 rounds correctly (literals, division, multiplication) is the exact
  operation followed by \<open>fl\<close>, rounding to nearest with ties to even at 53 significant bits
  (and at the fixed quantum \<open>2 powi -1074\<close> in the subnormal range). Overflow to infinity
  and NaN are not represented: no value of the program comes near \<open>2 ^ 1024\<close>.
\<close>

definition expo :: "real \<Rightarrow> int" where
  \<comment> \<open>the binary exponent \<open>e\<close> with \<open>2 powi e \<le> \<bar>x\<bar> < 2 powi (e + 1)\<close>, for \<open>\<bar>x\<bar> \<ge> 2 powi -1074\<close>\<close>
  "expo x = bitlen \<lfloor>\<bar>x\<bar> * 2 ^ 1074\<rfloor> - 1075"

definition rne :: "real \<Rightarrow> int" where
  \<comment> \<open>round to the nearest integer, ties to the even one\<close>
  "rne y = (let f = \<lfloor>y\<rfloor>; d = y - of_int f
            in if d < 1 / 2 then f
               else if 1 / 2 < d then f + 1
               else if even f then f else f + 1)"

definition fl :: "real \<Rightarrow> real" where
  "fl x = (let q = max (expo x - 52) (- 1074)
           in of_int (rne (x / 2 powi q)) * 2 powi q)"

subsection \<open>int16 and arrays of int16\<close>

type_synonym int16 = "16 word"

definition trunc0 :: "real \<Rightarrow> int" where
  \<comment> \<open>truncation toward zero\<close>
  "trunc0 x = (if 0 \<le> x then \<lfloor>x\<rfloor> else \<lceil>x\<rceil>)"

definition astype_int16 :: "real \<Rightarrow> int16" where
  \<comment> \<open>\<open>.astype(np.int16)\<close> on a float64: the fraction is dropped. For a value outside the
      int16 range numpy promises nothing; the usual conversion keeps the low 16 bits, and no
      result below depends on that case.\<close>
  "astype_int16 x = word_of_int (trunc0 x)"

definition np_abs :: "int16 \<Rightarrow> int16" where
  \<comment> \<open>\<open>np.abs\<close> on an int16 stays in int16: the negation wraps\<close>
  "np_abs w = (if sint w < 0 then - w else w)"

datatype ndarray = Arr0 int16 | Arr1 "int16 list"

datatype error =
    ValueError string
  | TypeError string
  | IndexError string
  | FileNotFoundError string

definition np_max :: "int16 list \<Rightarrow> error + int16" where
  \<comment> \<open>\<open>np.max\<close> of a one-dimensional int16 array; it raises on an empty one\<close>
  "np_max xs =
     (case xs of
        [] \<Rightarrow> Inl (ValueError ''zero-size array to reduction operation maximum which has no identity'')
      | y # ys \<Rightarrow> Inr (fold (\<lambda>a m. if sint m < sint a then a else m) ys y))"


section \<open>The class constants\<close>

definition SAMPLING_RATE :: nat where
  "SAMPLING_RATE = 44100"

definition DURATION_SECONDS :: nat where
  "DURATION_SECONDS = 5"

definition SOUND_ARRAY_LEN :: nat where
  "SOUND_ARRAY_LEN = SAMPLING_RATE * DURATION_SECONDS"

definition MAX_AMPLITUDE :: int where
  "MAX_AMPLITUDE = 2 ^ 13"

text \<open>
  The table holds the literals as the source writes them; Python reads a float literal as
  the nearest float64, which \<open>NOTES_get\<close> applies on lookup. The entry for \<open>''0''\<close> is
  the integer 0.
\<close>

definition NOTES :: "(string \<times> real) list" where
  "NOTES =
    [(''0'', 0),
     (''e0'', 20.60172), (''f0'', 21.82676), (''f#0'', 23.12465), (''g0'', 24.49971),
     (''g#0'', 25.95654), (''a0'', 27.50000), (''a#0'', 29.13524), (''b0'', 30.86771),
     (''c0'', 32.70320), (''c#0'', 34.64783), (''d0'', 36.70810), (''d#0'', 38.89087),
     (''e1'', 41.20344), (''f1'', 43.65353), (''f#1'', 46.24930), (''g1'', 48.99943),
     (''g#1'', 51.91309), (''a1'', 55.00000), (''a#1'', 58.27047), (''b1'', 61.73541),
     (''c1'', 65.40639), (''c#1'', 69.29566), (''d1'', 73.41619), (''d#1'', 77.78175),
     (''e2'', 82.40689), (''f2'', 87.30706), (''f#2'', 92.49861), (''g2'', 97.99886),
     (''g#2'', 103.8262), (''a2'', 110.0000), (''a#2'', 116.5409), (''b2'', 123.4708),
     (''c2'', 130.8128), (''c#2'', 138.5913), (''d2'', 146.8324), (''d#2'', 155.5635),
     (''e3'', 164.8138), (''f3'', 174.6141), (''f#3'', 184.9972), (''g3'', 195.9977),
     (''g#3'', 207.6523), (''a3'', 220.0000), (''a#3'', 233.0819), (''b3'', 246.9417),
     (''c3'', 261.6256), (''c#3'', 277.1826), (''d3'', 293.6648), (''d#3'', 311.1270),
     (''e4'', 329.6276), (''f4'', 349.2282), (''f#4'', 369.9944), (''g4'', 391.9954),
     (''g#4'', 415.3047), (''a4'', 440.0000), (''a#4'', 466.1638), (''b4'', 493.8833),
     (''c4'', 523.2511), (''c#4'', 554.3653), (''d4'', 587.3295), (''d#4'', 622.2540),
     (''e5'', 659.2551), (''f5'', 698.4565), (''f#5'', 739.9888), (''g5'', 783.9909),
     (''g#5'', 830.6094), (''a5'', 880.0000), (''a#5'', 932.3275), (''b5'', 987.7666),
     (''c5'', 1046.502), (''c#5'', 1108.731), (''d5'', 1174.659), (''d#5'', 1244.508),
     (''e6'', 1318.510), (''f6'', 1396.913), (''f#6'', 1479.978), (''g6'', 1567.982),
     (''g#6'', 1661.219), (''a6'', 1760.000), (''a#6'', 1864.655), (''b6'', 1975.533),
     (''c6'', 2093.005), (''c#6'', 2217.461), (''d6'', 2349.318), (''d#6'', 2489.016),
     (''e7'', 2637.020), (''f7'', 2793.826), (''f#7'', 2959.955), (''g7'', 3135.963),
     (''g#7'', 3322.438), (''a7'', 3520.000), (''a#7'', 3729.310), (''b7'', 3951.066),
     (''c7'', 4186.009), (''c#7'', 4434.922), (''d7'', 4698.636), (''d#7'', 4978.032)]"

definition NOTES_get :: "string \<Rightarrow> real option" where
  "NOTES_get k = map_option fl (map_of NOTES k)"


definition np_pi :: real where
  \<comment> \<open>the float64 constant \<open>np.pi\<close>, 0x400921FB54442D18\<close>
  "np_pi = 884279719003555 / 2 ^ 48"


section \<open>The factory and its world\<close>

record factory =
  common_timeline :: "real list"
  sound_wave :: "ndarray option"
  note_attr :: "string option"

datatype file_content = TextFile string | WavFile nat "int16 list"

text \<open>
  The world outside a factory: the regular files by path, and the lines printed so far.
  Opening a path for writing always succeeds.
\<close>

record world =
  files :: "string \<rightharpoonup> file_content"
  stdout :: "string list"

definition print :: "string \<Rightarrow> world \<Rightarrow> world" where
  "print s w = w\<lparr>stdout := stdout w @ [s]\<rparr>"

definition linspace :: "real \<Rightarrow> real \<Rightarrow> nat \<Rightarrow> real list" where
  \<comment> \<open>\<open>np.linspace(start, stop, num)\<close> as numpy computes it: \<open>arange(num) * step + start\<close>
      with \<open>step = (stop - start) / (num - 1)\<close>, and the last element then set to \<open>stop\<close>\<close>
  "linspace start stop num =
     (let delta = fl (stop - start)
      in if 1 < num then
           (let n1 = real (num - 1);
                step = fl (delta / n1);
                y = (if step = 0
                     then map (\<lambda>i. fl (fl (fl (real i / n1) * delta) + start)) [0..<num]
                     else map (\<lambda>i. fl (fl (real i * step) + start)) [0..<num])
            in butlast y @ [stop])
         else map (\<lambda>i. fl (fl (real i * delta) + start)) [0..<num])"

definition init :: factory where
  "init = \<lparr>common_timeline = linspace 0 (real DURATION_SECONDS) SOUND_ARRAY_LEN,
           sound_wave = None, note_attr = None\<rparr>"

text \<open>
  \<open>np.sin\<close> on float64 is the platform's library sine. It is the parameter \<open>np_sin\<close> of
  everything that generates a wave.
\<close>

definition get_normed_sin :: "(real \<Rightarrow> real) \<Rightarrow> real list \<Rightarrow> real \<Rightarrow> real list" where
  "get_normed_sin np_sin timeline frequency =
     map (\<lambda>t. fl (of_int MAX_AMPLITUDE * np_sin (fl (fl (fl (2 * np_pi) * frequency) * t))))
       timeline"

definition get_soundwave :: "(real \<Rightarrow> real) \<Rightarrow> real list \<Rightarrow> string \<Rightarrow> error + real list" where
  "get_soundwave np_sin timeline note =
     (case NOTES_get note of
        None \<Rightarrow> Inl (ValueError (''Note '' @ [CHR 0x27] @ note @ [CHR 0x27] @ '' not found in NOTES.''))
      | Some frequency \<Rightarrow> Inr (get_normed_sin np_sin timeline frequency))"

primrec replace :: "char \<Rightarrow> char \<Rightarrow> string \<Rightarrow> string" where
  \<comment> \<open>\<open>str.replace\<close> for patterns of one character\<close>
  "replace old new [] = []"
| "replace old new (c # cs) = (if c = old then new else c) # replace old new cs"

definition wavfile_write :: "string \<Rightarrow> nat \<Rightarrow> ndarray \<Rightarrow> world \<Rightarrow> (error + unit) \<times> world" where
  \<comment> \<open>\<open>scipy.io.wavfile.write\<close>: the file is opened for writing first; a zero-dimensional
      array then has no \<open>shape[1]\<close> and leaves the file empty\<close>
  "wavfile_write file_name rate data w =
     (case data of
        Arr1 xs \<Rightarrow> (Inr (), w\<lparr>files := (files w)(file_name \<mapsto> WavFile rate xs)\<rparr>)
      | Arr0 x \<Rightarrow> (Inl (IndexError ''tuple index out of range''),
                   w\<lparr>files := (files w)(file_name \<mapsto> TextFile [])\<rparr>))"

definition create_note ::
  "(real \<Rightarrow> real) \<Rightarrow> factory \<Rightarrow> world \<Rightarrow> string \<Rightarrow> string option \<Rightarrow> real list option
     \<Rightarrow> (error + ndarray) \<times> factory \<times> world" where
  "create_note np_sin self w note name timeline =
     (let timeline = (case timeline of None \<Rightarrow> common_timeline self | Some t \<Rightarrow> t);
          self = self\<lparr>note_attr := Some note\<rparr>
      in case get_soundwave np_sin timeline note of
           Inl e \<Rightarrow> (Inl e, self, w)
         | Inr wave \<Rightarrow>
             (let data = Arr1 (map astype_int16 wave);
                  self = self\<lparr>sound_wave := Some data\<rparr>;
                  file_name = (case name of
                                 None \<Rightarrow> replace (CHR ''#'') (CHR ''s'') (note @ ''_sin.wav'')
                               | Some n \<Rightarrow> n @ ''.wav'')
              in case wavfile_write file_name SAMPLING_RATE data w of
                   (Inl e, w') \<Rightarrow> (Inl e, self, w')
                 | (Inr u, w') \<Rightarrow> (Inr data, self, w')))"


subsection \<open>The text format\<close>

definition digit_char :: "nat \<Rightarrow> char" where
  "digit_char d = char_of (48 + d)"

fun digits :: "nat \<Rightarrow> string" where
  "digits n = (if n < 10 then [digit_char n] else digits (n div 10) @ [digit_char (n mod 10)])"

declare digits.simps [simp del]

definition fmt_d :: "int \<Rightarrow> string" where
  \<comment> \<open>the format \<open>%d\<close>\<close>
  "fmt_d i = (if i < 0 then CHR ''-'' # digits (nat (- i)) else digits (nat i))"

definition np_savetxt :: "string \<Rightarrow> ndarray \<Rightarrow> world \<Rightarrow> (error + unit) \<times> world" where
  \<comment> \<open>\<open>np.savetxt(file_name, X, fmt="%d")\<close>: one row per line. The file is created before
      the dimension of \<open>X\<close> is checked.\<close>
  "np_savetxt file_name X w =
     (case X of
        Arr1 xs \<Rightarrow>
          (Inr (), w\<lparr>files := (files w)(file_name \<mapsto>
                          TextFile (concat (map (\<lambda>x. fmt_d (sint x) @ [CHR 0x0A]) xs)))\<rparr>)
      | Arr0 x \<Rightarrow>
          (Inl (ValueError ''Expected 1D or 2D array, got 0D array instead''),
           w\<lparr>files := (files w)(file_name \<mapsto> TextFile [])\<rparr>))"

fun splitlines :: "string \<Rightarrow> string list" where
  \<comment> \<open>the segments between line feeds\<close>
  "splitlines [] = [[]]"
| "splitlines (c # cs) =
     (if c = CHR 0x0A then [] # splitlines cs
      else (case splitlines cs of l # ls \<Rightarrow> (c # l) # ls | [] \<Rightarrow> [[c]]))"

definition digit_val :: "char \<Rightarrow> nat option" where
  "digit_val c = (let k = of_char c :: nat in if 48 \<le> k \<and> k \<le> 57 then Some (k - 48) else None)"

fun parse_nat :: "nat \<Rightarrow> string \<Rightarrow> nat option" where
  "parse_nat acc [] = Some acc"
| "parse_nat acc (c # cs) =
     (case digit_val c of None \<Rightarrow> None | Some d \<Rightarrow> parse_nat (10 * acc + d) cs)"

definition parse_int :: "string \<Rightarrow> int option" where
  \<comment> \<open>a decimal integer: an optional minus sign and at least one digit\<close>
  "parse_int s =
     (case s of
        [] \<Rightarrow> None
      | c # cs \<Rightarrow>
          if c = CHR ''-'' then (if cs = [] then None else map_option (\<lambda>n. - int n) (parse_nat 0 cs))
          else map_option int (parse_nat 0 s))"

definition parse_int16 :: "string \<Rightarrow> error + int16" where
  "parse_int16 s =
     (case parse_int s of
        None \<Rightarrow> Inl (ValueError (''could not convert string to int16: '' @ s))
      | Some i \<Rightarrow>
          if - (2 ^ 15) \<le> i \<and> i < 2 ^ 15 then Inr (word_of_int i)
          else Inl (ValueError (''could not convert string to int16: '' @ s)))"

fun parse_rows :: "string list \<Rightarrow> error + int16 list" where
  "parse_rows [] = Inr []"
| "parse_rows (l # ls) =
     (case parse_int16 l of
        Inl e \<Rightarrow> Inl e
      | Inr x \<Rightarrow> (case parse_rows ls of Inl e \<Rightarrow> Inl e | Inr xs \<Rightarrow> Inr (x # xs)))"

text \<open>
  \<open>np.loadtxt(file_name, dtype=np.int16)\<close> on the format that \<open>np_savetxt\<close> writes: empty lines
  are skipped, every other line holds one decimal integer of the int16 range. The rows
  make a column, and axes of length one are squeezed away (\<open>ndmin=0\<close>): a file with a
  single row gives a zero-dimensional array. Content outside this format is an error here;
  numpy reads more than this (several columns, comments, blanks around a number), and
  nothing below relies on where exactly it gives up. A WAV file starts with the bytes
  \<open>RIFF\<close>, which is no number.
\<close>

definition np_loadtxt :: "file_content \<Rightarrow> error + ndarray" where
  "np_loadtxt c =
     (case c of
        WavFile rate xs \<Rightarrow> Inl (ValueError ''could not convert string to int16: RIFF'')
      | TextFile s \<Rightarrow>
          (case parse_rows (filter (\<lambda>l. l \<noteq> []) (splitlines s)) of
             Inl e \<Rightarrow> Inl e
           | Inr [] \<Rightarrow> Inr (Arr1 [])
           | Inr [x] \<Rightarrow> Inr (Arr0 x)
           | Inr xs \<Rightarrow> Inr (Arr1 xs)))"

fun error_str :: "error \<Rightarrow> string" where
  "error_str (ValueError m) = m"
| "error_str (TypeError m) = m"
| "error_str (IndexError m) = m"
| "error_str (FileNotFoundError m) = m"

subsection \<open>Loading and saving\<close>

definition read_wave_from_txt ::
  "factory \<Rightarrow> world \<Rightarrow> string \<Rightarrow> (error + unit) \<times> factory \<times> world" where
  "read_wave_from_txt self w file_name =
     (case files w file_name of
        Some c \<Rightarrow>
          (case np_loadtxt c of
             Inr a \<Rightarrow> (Inr (), self\<lparr>sound_wave := Some a\<rparr>,
                        print (''Successfully loaded wave from '' @ file_name) w)
           | Inl e \<Rightarrow> (Inr (), self,
                        print (''Error loading wave from '' @ file_name @ '': '' @ error_str e) w))
      | None \<Rightarrow> (Inl (FileNotFoundError (file_name @ '' not found.'')), self, w))"

definition upper_char :: "char \<Rightarrow> char" where
  "upper_char c = (let k = of_char c :: nat in if 97 \<le> k \<and> k \<le> 122 then char_of (k - 32) else c)"

definition upper :: "string \<Rightarrow> string" where
  "upper s = map upper_char s"

definition save_wave :: "factory \<Rightarrow> world \<Rightarrow> string \<Rightarrow> string \<Rightarrow> (error + unit) \<times> world" where
  "save_wave self w file_name file_type =
     (case sound_wave self of
        None \<Rightarrow> (Inr (), print ''No sound wave to save.'' w)
      | Some data \<Rightarrow>
          if upper file_type = ''WAV'' then
            (case wavfile_write file_name SAMPLING_RATE data w of
               (Inl e, w') \<Rightarrow> (Inl e, w')
             | (Inr u, w') \<Rightarrow> (Inr (), print (''Wave saved as WAV file: '' @ file_name) w'))
          else
            (case np_savetxt file_name data w of
               (Inl e, w') \<Rightarrow> (Inl e, w')
             | (Inr u, w') \<Rightarrow> (Inr (), print (''Wave saved as text file: '' @ file_name) w')))"


section \<open>Normalization\<close>

datatype wave_source = Raw ndarray | Instance factory

definition source_wave :: "wave_source \<Rightarrow> ndarray option" where
  \<comment> \<open>\<open>wave.sound_wave if isinstance(wave, SoundWaveFactory) else wave\<close>\<close>
  "source_wave wave = (case wave of Instance f \<Rightarrow> sound_wave f | Raw a \<Rightarrow> Some a)"

definition len :: "ndarray option \<Rightarrow> error + nat" where
  "len a =
     (case a of
        None \<Rightarrow> Inl (TypeError ''object of type NoneType has no len()'')
      | Some (Arr0 x) \<Rightarrow> Inl (TypeError ''len() of unsized object'')
      | Some (Arr1 xs) \<Rightarrow> Inr (length xs))"

fun min_from :: "nat \<Rightarrow> wave_source list \<Rightarrow> error + nat" where
  \<comment> \<open>\<open>min\<close> over the generator: the lengths are taken one at a time, in order\<close>
  "min_from m [] = Inr m"
| "min_from m (wave # waves) =
     (case len (source_wave wave) of
        Inl e \<Rightarrow> Inl e
      | Inr n \<Rightarrow> min_from (if n < m then n else m) waves)"

definition min_length_of :: "wave_source list \<Rightarrow> error + nat" where
  "min_length_of waves =
     (case waves of
        [] \<Rightarrow> Inl (ValueError ''min() arg is an empty sequence'')
      | wave # rest \<Rightarrow>
          (case len (source_wave wave) of Inl e \<Rightarrow> Inl e | Inr n \<Rightarrow> min_from n rest))"

definition normalize_amplitude :: "int16 list \<Rightarrow> error + int16 list" where
  \<comment> \<open>the part of the loop body under \<open># Normalizes the amplitude\<close>. The peak is taken in
      int16; the ratio is a float64, and so is every product before it is cast back.\<close>
  "normalize_amplitude trimmed_wave =
     (case np_max (map np_abs trimmed_wave) of
        Inl e \<Rightarrow> Inl e
      | Inr max_amplitude \<Rightarrow>
          if 0 < sint max_amplitude then
            (let ratio = fl (of_int MAX_AMPLITUDE / of_int (sint max_amplitude))
             in Inr (map (\<lambda>s. astype_int16 (fl (of_int (sint s) * ratio))) trimmed_wave))
          else Inr trimmed_wave)"

definition normalize_wave :: "nat \<Rightarrow> wave_source \<Rightarrow> error + ndarray" where
  \<comment> \<open>the body of the loop over the waves\<close>
  "normalize_wave min_length wave =
     (case source_wave wave of
        None \<Rightarrow> Inl (TypeError ''NoneType object is not subscriptable'')
      | Some (Arr0 x) \<Rightarrow> Inl (IndexError ''too many indices for array'')
      | Some (Arr1 xs) \<Rightarrow>
          (let trimmed_wave = take min_length xs
           in case normalize_amplitude trimmed_wave of
                Inl e \<Rightarrow> Inl e
              | Inr normalized_wave \<Rightarrow> Inr (Arr1 normalized_wave)))"

fun normalize_loop :: "nat \<Rightarrow> wave_source list \<Rightarrow> ndarray list \<Rightarrow> error + ndarray list" where
  "normalize_loop min_length [] normalized_waves = Inr normalized_waves"
| "normalize_loop min_length (wave # waves) normalized_waves =
     (case normalize_wave min_length wave of
        Inl e \<Rightarrow> Inl e
      | Inr normalized_wave \<Rightarrow>
          normalize_loop min_length waves (normalized_waves @ [normalized_wave]))"

definition normalize_sound_waves ::
  "world \<Rightarrow> wave_source list \<Rightarrow> (error + ndarray list option) \<times> world" where
  "normalize_sound_waves w waves =
     (if waves = [] then (Inr None, print ''No waves provided.'' w)
      else case min_length_of waves of
             Inl e \<Rightarrow> (Inl e, w)
           | Inr min_length \<Rightarrow>
               (case normalize_loop min_length waves [] of
                  Inl e \<Rightarrow> (Inl e, w)
                | Inr normalized_waves \<Rightarrow> (Inr (Some normalized_waves), w)))"


section \<open>Facts about the numeric types\<close>

lemma bitlen_floor_scaled:
  fixes x :: real and e :: int and k :: nat
  assumes lo: "2 powi e \<le> x" and hi: "x < 2 powi (e + 1)" and e: "- int k \<le> e"
  shows "bitlen \<lfloor>x * 2 ^ k\<rfloor> = e + int k + 1"
proof -
  define n where "n = \<lfloor>x * 2 ^ k\<rfloor>"
  have "(2::real) powi e * 2 ^ k = 2 powi e * 2 powi int k" by simp
  also have "\<dots> = 2 powi (e + int k)" by (simp add: power_int_add)
  also have "\<dots> = 2 ^ nat (e + int k)" using e by (simp add: power_int_def)
  finally have p: "(2::real) powi e * 2 ^ k = 2 ^ nat (e + int k)" .
  have p': "(2::real) powi (e + 1) * 2 ^ k = 2 ^ nat (e + int k + 1)"
    using e p by (simp add: power_int_add nat_add_distrib)
  have "2 ^ nat (e + int k) \<le> x * 2 ^ k"
    using lo p by (metis mult_right_mono zero_le_numeral zero_le_power)
  then have "real_of_int (2 ^ nat (e + int k)) \<le> x * 2 ^ k" by simp
  then have l: "2 ^ nat (e + int k) \<le> n"
    unfolding n_def by (subst le_floor_iff) 
  have "x * 2 ^ k < 2 ^ nat (e + int k + 1)"
    using hi p' by (metis mult_strict_right_mono zero_less_numeral zero_less_power)
  then have "x * 2 ^ k < real_of_int (2 ^ nat (e + int k + 1))" by simp
  then have h: "n < 2 ^ nat (e + int k + 1)"
    unfolding n_def by (subst floor_less_iff)
  have "bitlen n \<le> e + int k + 1"
    using h e by (simp add: bitlen_le_iff_power)
  moreover have "nat (e + int k + 1) - 1 = nat (e + int k)" using e by simp
  then have "e + int k + 1 \<le> bitlen n"
    using l e by (simp add: bitlen_ge_iff_power)
  ultimately show ?thesis by (simp add: n_def)
qed

lemma expo_eqI:
  assumes "2 powi e \<le> \<bar>x\<bar>" and "\<bar>x\<bar> < 2 powi (e + 1)" and "- 1074 \<le> e"
  shows "expo x = e"
  using bitlen_floor_scaled [of e "\<bar>x\<bar>" 1074] assms unfolding expo_def by simp

lemma bitlen_floor_scaled_le:
  fixes x :: real and e :: int and k :: nat
  assumes hi: "x \<le> 2 powi e" and e: "- int k \<le> e"
  shows "bitlen \<lfloor>x * 2 ^ k\<rfloor> \<le> e + int k + 1"
proof -
  have "(2::real) powi e * 2 ^ k = 2 powi e * 2 powi int k" by simp
  also have "\<dots> = 2 powi (e + int k)" by (simp add: power_int_add)
  also have "\<dots> = 2 ^ nat (e + int k)" using e by (simp add: power_int_def)
  finally have p: "(2::real) powi e * 2 ^ k = 2 ^ nat (e + int k)" .
  have "x * 2 ^ k \<le> 2 ^ nat (e + int k)"
    using hi p by (metis mult_right_mono zero_le_numeral zero_le_power)
  also have "\<dots> < 2 ^ nat (e + int k + 1)"
    using e by (simp add: nat_add_distrib)
  finally have "x * 2 ^ k < real_of_int (2 ^ nat (e + int k + 1))" by simp
  then have "\<lfloor>x * 2 ^ k\<rfloor> < 2 ^ nat (e + int k + 1)"
    by (subst floor_less_iff)
  then show ?thesis using e by (simp add: bitlen_le_iff_power)
qed

lemma expo_le:
  assumes "\<bar>x\<bar> \<le> 2 powi e" and "- 1074 \<le> e"
  shows "expo x \<le> e"
  using bitlen_floor_scaled_le [of "\<bar>x\<bar>" e 1074] assms unfolding expo_def by simp

lemma rne_le: "y \<le> of_int N \<Longrightarrow> rne y \<le> N"
  unfolding rne_def Let_def by (auto; linarith)

lemma rne_ge: "of_int N \<le> y \<Longrightarrow> N \<le> rne y"
  unfolding rne_def Let_def by (auto; linarith)

lemma rne_err: "\<bar>of_int (rne y) - y\<bar> \<le> 1 / 2"
  unfolding rne_def Let_def by (auto; linarith)

lemma fl_abs_le_pow2:
  assumes x: "\<bar>x\<bar> \<le> 2 powi k" and k: "- 1074 \<le> k"
  shows "\<bar>fl x\<bar> \<le> 2 powi k"
proof -
  define q where "q = max (expo x - 52) (- 1074)"
  have qk: "q \<le> k" using expo_le [OF x k] k by (simp add: q_def)
  have pos: "(0::real) < 2 powi q" by simp
  define N :: int where "N = 2 ^ nat (k - q)"
  have N: "of_int N * 2 powi q = (2::real) powi k"
  proof -
    have "real_of_int N = 2 powi (k - q)" using qk by (simp add: N_def power_int_def)
    then show ?thesis by (simp add: power_int_diff)
  qed
  have "x / 2 powi q \<le> of_int N"
    using x N pos by (simp add: pos_divide_le_eq)
  then have u: "rne (x / 2 powi q) \<le> N" by (rule rne_le)
  have "of_int (- N) \<le> x / 2 powi q"
    using x N pos by (simp add: pos_le_divide_eq)
  then have l: "- N \<le> rne (x / 2 powi q)" by (rule rne_ge)
  have "\<bar>real_of_int (rne (x / 2 powi q))\<bar> \<le> of_int N" using u l by linarith
  then have "\<bar>real_of_int (rne (x / 2 powi q))\<bar> * 2 powi q \<le> of_int N * 2 powi q"
    using pos by (simp add: mult_right_mono)
  then show ?thesis
    unfolding fl_def Let_def q_def [symmetric] N by (simp add: abs_mult)
qed

lemma expo_bounds:
  assumes "2 powi (- 1074) \<le> \<bar>x\<bar>"
  shows "2 powi expo x \<le> \<bar>x\<bar>" and "\<bar>x\<bar> < 2 powi (expo x + 1)"
proof -
  define k :: nat where "k = 1074"
  define n where "n = \<lfloor>\<bar>x\<bar> * 2 ^ k\<rfloor>"
  define b where "b = bitlen n"
  have e: "expo x = b - int k - 1" by (simp add: expo_def b_def n_def k_def)
  have "(2::real) powi (- int k) * 2 ^ k = 1"
    by (simp add: power_int_minus field_simps)
  moreover have "2 powi (- int k) * 2 ^ k \<le> \<bar>x\<bar> * 2 ^ k"
    using assms by (intro mult_right_mono) (simp_all add: k_def)
  ultimately have "1 \<le> \<bar>x\<bar> * 2 ^ k" by simp
  then have npos: "0 < n" unfolding n_def by linarith
  then have b1: "1 \<le> b" unfolding b_def using bitlen_eq_zero_iff [of n] bitlen_nonneg [of n] by linarith
  have lo: "2 ^ nat (b - 1) \<le> n" and hi: "n < 2 ^ nat b"
    using bitlen_bounds [OF npos] by (simp_all add: b_def)
  have scale: "(2::real) powi (j - int k) * 2 ^ k = 2 ^ nat j" if "0 \<le> j" for j
  proof -
    have "(2::real) powi (j - int k) * 2 ^ k = 2 powi (j - int k) * 2 powi int k" by simp
    also have "\<dots> = 2 powi (j - int k + int k)" by (rule power_int_add [symmetric]) simp
    also have "\<dots> = 2 powi j" by simp
    also have "\<dots> = 2 ^ nat j" using that by (simp add: power_int_def)
    finally show ?thesis .
  qed
  have "real_of_int (2 ^ nat (b - 1)) \<le> real_of_int n" using lo by (simp only: of_int_le_iff)
  also have "\<dots> \<le> \<bar>x\<bar> * 2 ^ k" by (simp add: n_def)
  finally have "2 powi (b - 1 - int k) * 2 ^ k \<le> \<bar>x\<bar> * 2 ^ k"
    using scale [of "b - 1"] b1 by simp
  then have "2 powi (b - 1 - int k) \<le> \<bar>x\<bar>" by simp
  then show "2 powi expo x \<le> \<bar>x\<bar>" by (simp add: e algebra_simps)
  have "\<bar>x\<bar> * 2 ^ k < real_of_int n + 1" by (simp add: n_def)
  also have "\<dots> \<le> real_of_int (2 ^ nat b)" using hi by (metis of_int_1 of_int_add of_int_le_iff zless_imp_add1_zle)
  finally have "\<bar>x\<bar> * 2 ^ k < 2 powi (b - int k) * 2 ^ k"
    using scale [of b] b1 by simp
  then have "\<bar>x\<bar> < 2 powi (b - int k)" by simp
  then show "\<bar>x\<bar> < 2 powi (expo x + 1)" by (simp add: e)
qed

lemma fl_rel_error:
  assumes "2 powi (- 1022) \<le> \<bar>x\<bar>"
  shows "\<bar>fl x - x\<bar> \<le> \<bar>x\<bar> * 2 powi (- 53)"
proof -
  have "(2::real) powi (- 1074) \<le> 2 powi (- 1022)" by (rule power_int_increasing) simp_all
  then have small: "2 powi (- 1074) \<le> \<bar>x\<bar>" using assms by linarith
  define e where "e = expo x"
  have lo: "2 powi e \<le> \<bar>x\<bar>" and hi: "\<bar>x\<bar> < 2 powi (e + 1)"
    using expo_bounds [OF small] by (simp_all add: e_def)
  have "- 1022 < e + 1"
  proof (rule ccontr)
    assume "\<not> - 1022 < e + 1"
    then have "(2::real) powi (e + 1) \<le> 2 powi (- 1022)" by (intro power_int_increasing) simp_all
    with hi assms show False by linarith
  qed
  then have q: "max (e - 52) (- 1074) = e - 52" by simp
  define y where "y = x / 2 powi (e - 52)"
  have pos: "(0::real) < 2 powi (e - 52)" by simp
  have "fl x - x = (of_int (rne y) - y) * 2 powi (e - 52)"
    unfolding fl_def Let_def e_def [symmetric] q y_def using pos by (simp add: algebra_simps)
  then have "\<bar>fl x - x\<bar> = \<bar>of_int (rne y) - y\<bar> * 2 powi (e - 52)"
    using pos by (simp add: abs_mult)
  also have "\<dots> \<le> 1 / 2 * 2 powi (e - 52)"
    using rne_err [of y] pos by (intro mult_right_mono) simp_all
  also have "\<dots> = 2 powi e * 2 powi (- 53)"
    by (simp add: power_int_diff power_int_minus field_simps)
  also have "\<dots> \<le> \<bar>x\<bar> * 2 powi (- 53)"
    using lo by (intro mult_right_mono) simp_all
  finally show ?thesis .
qed

lemma fl_0: "fl 0 = 0"
  by (simp add: fl_def rne_def)


lemma ulp_53: "(2::real) powi (- 53) = 1 / 2 ^ 53"
  by (simp add: power_int_minus_divide)

lemma tiny_le: "c \<le> \<bar>x\<bar> \<Longrightarrow> 1 / 8 \<le> c \<Longrightarrow> (2::real) powi (- 1022) \<le> \<bar>x\<bar>"
proof -
  assume a: "c \<le> \<bar>x\<bar>" "1 / 8 \<le> c"
  have "(2::real) powi (- 1022) \<le> 2 powi (- 3)" by (rule power_int_increasing) simp_all
  also have "\<dots> = 1 / 8" by (simp add: power_int_minus_divide)
  finally show ?thesis using a by linarith
qed

lemma scaled_sample_bounds:
  fixes P s :: int
  assumes P: "1 \<le> P" "P \<le> 32767" and s: "\<bar>s\<bar> \<le> P"
  defines "r \<equiv> fl (8192 / of_int P)"
  defines "v \<equiv> fl (of_int s * r)"
  shows "\<bar>v\<bar> < 8193" and "\<bar>s\<bar> = P \<Longrightarrow> 8191 < \<bar>v\<bar>"
proof -
  define u :: real where "u = 2 powi (- 53)"
  have u: "0 < u" "u \<le> 1 / 2 ^ 20" by (simp_all add: u_def ulp_53)
  define x0 :: real where "x0 = 8192 / of_int P"
  have Ppos: "0 < real_of_int P" using P by simp
  have Px0: "of_int P * x0 = 8192" using Ppos by (simp add: x0_def)
  have "real_of_int P \<le> 32767" using P by simp
  then have "8192 \<le> x0 * 32767"
    using Ppos Px0 by (metis mult.commute mult_left_mono less_eq_real_def x0_def divide_nonneg_pos zero_le_numeral)
  then have x0_ge: "1 / 4 \<le> x0" by simp
  then have x0_abs: "\<bar>x0\<bar> = x0" by simp
  have "2 powi (- 1022) \<le> \<bar>x0\<bar>" using x0_ge by (intro tiny_le [of "1 / 4"]) simp_all
  then have "\<bar>fl x0 - x0\<bar> \<le> \<bar>x0\<bar> * 2 powi (- 53)" by (rule fl_rel_error)
  moreover have r_x0: "r = fl x0" by (simp add: r_def x0_def)
  ultimately have r_err: "\<bar>r - x0\<bar> \<le> x0 * u" unfolding u_def x0_abs by simp
  have "x0 * u \<le> x0 * (1 / 2)" using u x0_ge by (intro mult_left_mono) simp_all
  then have r_ge: "1 / 8 \<le> r" using r_err x0_ge by linarith
  define Pr where "Pr = of_int P * r"
  have "Pr - 8192 = of_int P * (r - x0)"
    using Px0 by (simp add: Pr_def right_diff_distrib)
  then have "\<bar>Pr - 8192\<bar> = \<bar>real_of_int P\<bar> * \<bar>r - x0\<bar>"
    by (simp only: abs_mult)
  also have "\<dots> = of_int P * \<bar>r - x0\<bar>" using Ppos by simp
  also have "\<dots> \<le> of_int P * (x0 * u)" using r_err Ppos by (intro mult_left_mono) simp_all
  also have "\<dots> = 8192 * u" using Px0 by (simp flip: mult.assoc)
  finally have Pr_err: "\<bar>Pr - 8192\<bar> \<le> 8192 * u" .
  define t where "t = of_int s * r"
  have t_abs: "\<bar>t\<bar> = of_int \<bar>s\<bar> * r" using r_ge by (simp add: t_def abs_mult)
  have "of_int \<bar>s\<bar> * r \<le> Pr"
    unfolding Pr_def using s r_ge by (intro mult_right_mono) simp_all
  then have t_le: "\<bar>t\<bar> \<le> 8192 + 8192 * u" using Pr_err t_abs by linarith
  have v_err: "\<bar>v - t\<bar> \<le> \<bar>t\<bar> * u"
  proof (cases "s = 0")
    case True
    then show ?thesis by (simp add: v_def t_def r_def fl_0)
  next
    case False
    then have "1 \<le> real_of_int \<bar>s\<bar>" by linarith
    then have "1 * r \<le> of_int \<bar>s\<bar> * r" using r_ge by (intro mult_right_mono) simp_all
    then have "r \<le> \<bar>t\<bar>" using t_abs by simp
    then have "2 powi (- 1022) \<le> \<bar>t\<bar>" using r_ge by (rule tiny_le)
    then have "\<bar>fl t - t\<bar> \<le> \<bar>t\<bar> * 2 powi (- 53)" by (rule fl_rel_error)
    moreover have "v = fl t" by (simp add: v_def t_def)
    ultimately show ?thesis unfolding u_def by simp
  qed
  have "\<bar>t\<bar> * u \<le> (8192 + 8192 * u) * u" using t_le u by (intro mult_right_mono) simp_all
  also have "\<dots> \<le> (8192 + 8192 * (1 / 2 ^ 20)) * (1 / 2 ^ 20)"
    using u by (intro mult_mono) simp_all
  finally have tu: "\<bar>t\<bar> * u \<le> (8192 + 8192 * (1 / 2 ^ 20)) * (1 / 2 ^ 20)" .
  have "\<bar>v\<bar> \<le> \<bar>t\<bar> + \<bar>t\<bar> * u" using v_err by linarith
  also have "\<dots> \<le> (8192 + 8192 * u) + (8192 + 8192 * (1 / 2 ^ 20)) * (1 / 2 ^ 20)"
    using t_le tu by linarith
  also have "\<dots> \<le> (8192 + 8192 * (1 / 2 ^ 20)) + (8192 + 8192 * (1 / 2 ^ 20)) * (1 / 2 ^ 20)"
    using u by simp
  also have "\<dots> < 8193" by simp
  finally show "\<bar>v\<bar> < 8193" .
  show "8191 < \<bar>v\<bar>" if "\<bar>s\<bar> = P"
  proof -
    have "\<bar>t\<bar> = Pr" using that t_abs by (simp add: Pr_def)
    then have "8192 - 8192 * u \<le> \<bar>t\<bar>" using Pr_err by linarith
    moreover have "\<bar>t\<bar> - \<bar>t\<bar> * u \<le> \<bar>v\<bar>" using v_err by linarith
    moreover have "8192 * u \<le> 8192 * (1 / 2 ^ 20)" using u by simp
    ultimately have "8192 - 8192 * (1 / 2 ^ 20) - (8192 + 8192 * (1 / 2 ^ 20)) * (1 / 2 ^ 20) \<le> \<bar>v\<bar>"
      using tu by linarith
    then show ?thesis by simp
  qed
qed


lemma sint_astype_int16_eq:
  assumes "\<bar>x\<bar> < 8193"
  shows "sint (astype_int16 x) = trunc0 x" and "\<bar>trunc0 x\<bar> \<le> 8192"
proof -
  show t: "\<bar>trunc0 x\<bar> \<le> 8192"
    using assms unfolding trunc0_def by (auto simp: abs_le_iff; linarith)
  then have "sint (word_of_int (trunc0 x) :: int16) = trunc0 x"
    by (intro signed_take_bit_int_eq_self [THEN trans [OF sint_sbintrunc']]) auto
  then show "sint (astype_int16 x) = trunc0 x" by (simp add: astype_int16_def)
qed

lemma trunc0_ge:
  assumes "8191 < \<bar>x\<bar>"
  shows "8191 \<le> \<bar>trunc0 x\<bar>"
  using assms unfolding trunc0_def by (auto; linarith)

lemma sint_np_abs:
  assumes "sint s \<noteq> - 32768"
  shows "sint (np_abs s) = \<bar>sint s\<bar>"
proof (cases "sint s < 0")
  case True
  have "- (2 ^ 15) \<le> sint s" using sint_ge [of s] by simp
  then have r: "- (2 ^ 15) \<le> - sint s" "- sint s < 2 ^ 15" using assms True by simp_all
  have "sint (- s) = signed_take_bit 15 (- sint s)" by (simp add: sint_word_ariths)
  also have "\<dots> = - sint s" using r by (intro signed_take_bit_int_eq_self) simp_all
  finally show ?thesis using True by (simp add: np_abs_def)
next
  case False
  then show ?thesis by (simp add: np_abs_def)
qed

lemma sint_fold_max:
  "sint (fold (\<lambda>a m. if sint m < sint a then a else m) ys (y :: int16)) = Max (sint ` set (y # ys))"
proof (induction ys arbitrary: y)
  case Nil
  then show ?case by simp
next
  case (Cons a ys)
  have "Max (sint ` set (y # a # ys)) = Max (sint ` set ((if sint y < sint a then a else y) # ys))"
  proof (cases "ys = []")
    case True
    then show ?thesis by (simp add: max_def)
  next
    case False
    then have "Max (insert (sint y) (insert (sint a) (sint ` set ys)))
        = max (max (sint y) (sint a)) (Max (sint ` set ys))"
      by (simp add: max.assoc)
    moreover have "Max (insert (sint (if sint y < sint a then a else y)) (sint ` set ys))
        = max (max (sint y) (sint a)) (Max (sint ` set ys))"
      using False by (simp add: max_def)
    ultimately show ?thesis by simp
  qed
  then show ?case using Cons.IH [of "if sint y < sint a then a else y"] by simp
qed

lemma np_max_sint:
  assumes "xs \<noteq> []"
  shows "\<exists>m. np_max xs = Inr m \<and> sint m = Max (sint ` set xs)"
proof -
  from assms obtain y ys where "xs = y # ys" by (cases xs) auto
  then show ?thesis by (simp add: np_max_def sint_fold_max del: fold_simps)
qed

lemma np_max_abs:
  assumes "xs \<noteq> []" and "\<forall>s \<in> set xs. sint s \<noteq> - 32768"
  shows "\<exists>m. np_max (map np_abs xs) = Inr m \<and> sint m = Max ((\<lambda>s. \<bar>sint s\<bar>) ` set xs)"
proof -
  have "sint ` set (map np_abs xs) = (\<lambda>s. \<bar>sint s\<bar>) ` set xs"
    using assms(2) by (auto simp: sint_np_abs image_iff intro!: bexI)
  then show ?thesis using np_max_sint [of "map np_abs xs"] assms(1) by auto
qed


lemma sint_astype_int16:
  assumes "\<bar>x\<bar> \<le> 8192"
  shows "\<bar>sint (astype_int16 x)\<bar> \<le> 8192"
proof -
  have t: "\<bar>trunc0 x\<bar> \<le> 8192"
    using assms unfolding trunc0_def by (auto simp: abs_le_iff; linarith)
  then have "sint (word_of_int (trunc0 x) :: int16) = trunc0 x"
    by (intro signed_take_bit_int_eq_self [THEN trans [OF sint_sbintrunc']]) auto
  then show ?thesis using t by (simp add: astype_int16_def)
qed

lemma length_linspace: "length (linspace start stop num) = num"
  by (simp add: linspace_def Let_def)

lemma get_normed_sin_bound:
  assumes "\<forall>x. \<bar>np_sin x\<bar> \<le> 1" and "v \<in> set (get_normed_sin np_sin timeline frequency)"
  shows "\<bar>v\<bar> \<le> 8192"
proof -
  from assms(2) obtain y where v: "v = fl (8192 * np_sin y)"
    by (auto simp: get_normed_sin_def MAX_AMPLITUDE_def)
  have "\<bar>8192 * np_sin y\<bar> \<le> 2 powi 13"
    using assms(1) [rule_format, of y] by (simp add: abs_mult)
  then have "\<bar>fl (8192 * np_sin y)\<bar> \<le> 2 powi 13"
    by (rule fl_abs_le_pow2) simp
  then show ?thesis by (simp add: v)
qed



section \<open>Frequency resolution\<close>

lemma expo_440: "expo 440 = 8"
  by (rule expo_eqI) simp_all

lemma fl_440: "fl 440 = 440"
  by (simp add: fl_def expo_440 rne_def)

lemma NOTES_get_None: "NOTES_get k = None \<longleftrightarrow> k \<notin> fst ` set NOTES"
  by (simp add: NOTES_get_def map_of_eq_None_iff)

lemma NOTES_get_a4: "NOTES_get ''a4'' = Some 440"
  by (simp add: NOTES_get_def NOTES_def fl_440)

lemma NOTES_get_c0: "NOTES_get ''c0'' = Some (fl 32.70320)"
  by (simp add: NOTES_get_def NOTES_def)

lemma z9_absent: "''z9'' \<notin> fst ` set NOTES"
  by (simp add: NOTES_def)

text \<open>
  Claim C2. Looking a note up is a function of the key alone. The key \<open>a4\<close> gives 440.0 and
  the key \<open>c0\<close> gives the float64 written \<open>32.70320\<close>; every key of the table gives its
  frequency, and every key that is not in the table (\<open>z9\<close> is none) makes \<open>get_soundwave\<close>
  raise the error for an unknown note, a \<open>ValueError\<close>, instead of returning a value.
\<close>

theorem resolve_frequency:
  "NOTES_get ''a4'' = Some 440
   \<and> get_soundwave np_sin timeline ''a4'' = Inr (get_normed_sin np_sin timeline 440)
   \<and> NOTES_get ''c0'' = Some (fl 32.70320)
   \<and> get_soundwave np_sin timeline ''c0'' = Inr (get_normed_sin np_sin timeline (fl 32.70320))
   \<and> (\<forall>k \<in> fst ` set NOTES. \<exists>f.
         NOTES_get k = Some f \<and> get_soundwave np_sin timeline k = Inr (get_normed_sin np_sin timeline f))
   \<and> (\<forall>k. k \<notin> fst ` set NOTES \<longrightarrow>
         NOTES_get k = None \<and> (\<exists>m. get_soundwave np_sin timeline k = Inl (ValueError m)))"
proof -
  have in_table: "\<exists>f. NOTES_get k = Some f
      \<and> get_soundwave np_sin timeline k = Inr (get_normed_sin np_sin timeline f)"
    if "k \<in> fst ` set NOTES" for k
  proof -
    from that have "NOTES_get k \<noteq> None" by (simp add: NOTES_get_None)
    then obtain f where "NOTES_get k = Some f" by blast
    then show ?thesis by (simp add: get_soundwave_def)
  qed
  have absent: "NOTES_get k = None \<and> (\<exists>m. get_soundwave np_sin timeline k = Inl (ValueError m))"
    if "k \<notin> fst ` set NOTES" for k
  proof -
    from that have "NOTES_get k = None" by (simp add: NOTES_get_None)
    then show ?thesis by (simp add: get_soundwave_def)
  qed
  show ?thesis
    using in_table absent
    by (simp add: NOTES_get_a4 NOTES_get_c0 get_soundwave_def)
qed

theorem resolve_frequency_witness:
  "''g#2'' \<in> fst ` set NOTES
   \<and> (\<exists>f. NOTES_get ''g#2'' = Some f \<and> get_soundwave sin [0] ''g#2'' = Inr (get_normed_sin sin [0] f))
   \<and> ''z9'' \<notin> fst ` set NOTES
   \<and> NOTES_get ''z9'' = None \<and> (\<exists>m. get_soundwave sin [0] ''z9'' = Inl (ValueError m))"
proof -
  have a: "''g#2'' \<in> fst ` set NOTES" by (simp add: NOTES_def)
  have b: "''z9'' \<notin> fst ` set NOTES" by (simp add: NOTES_def)
  show ?thesis
    using resolve_frequency [of sin "[0]"] a b by blast
qed


section \<open>Generating a note\<close>

text \<open>
  Claim C1. For every note of the table, \<open>create_note\<close> with the default time base of the
  factory returns (and stores) a sequence of 220500 samples, that is
  \<open>SAMPLING_RATE * DURATION_SECONDS\<close>, and the absolute value of every sample is at most
  \<open>MAX_AMPLITUDE = 8192\<close>. The library sine is any function with values in \<open>[-1, 1]\<close>.
\<close>

theorem create_note_samples:
  assumes sin_bound: "\<forall>x. \<bar>np_sin x\<bar> \<le> 1"
    and valid: "note \<in> fst ` set NOTES"
    and default: "common_timeline self = common_timeline init"
  shows "\<exists>xs. fst (create_note np_sin self w note name None) = Inr (Arr1 xs)
           \<and> sound_wave (fst (snd (create_note np_sin self w note name None))) = Some (Arr1 xs)
           \<and> length xs = SAMPLING_RATE * DURATION_SECONDS
           \<and> length xs = 220500
           \<and> (\<forall>s \<in> set xs. \<bar>sint s\<bar> \<le> MAX_AMPLITUDE)
           \<and> MAX_AMPLITUDE = 8192"
proof -
  from valid have "NOTES_get note \<noteq> None" by (simp add: NOTES_get_None)
  then obtain f where f: "NOTES_get note = Some f" by blast
  define wave where "wave = get_normed_sin np_sin (common_timeline init) f"
  define xs where "xs = map astype_int16 wave"
  have len: "length xs = 220500"
    by (simp add: xs_def wave_def get_normed_sin_def init_def length_linspace
        SOUND_ARRAY_LEN_def SAMPLING_RATE_def DURATION_SECONDS_def)
  have bound: "\<bar>sint s\<bar> \<le> 8192" if "s \<in> set xs" for s
  proof -
    from that obtain v where "v \<in> set wave" and s: "s = astype_int16 v"
      by (auto simp: xs_def)
    then have "\<bar>v\<bar> \<le> 8192"
      using get_normed_sin_bound [OF sin_bound] by (simp add: wave_def)
    then show ?thesis unfolding s by (rule sint_astype_int16)
  qed
  have "create_note np_sin self w note name None
      = (Inr (Arr1 xs), self\<lparr>note_attr := Some note, sound_wave := Some (Arr1 xs)\<rparr>,
         w\<lparr>files := (files w)((case name of
                                 None \<Rightarrow> replace (CHR ''#'') (CHR ''s'') (note @ ''_sin.wav'')
                               | Some n \<Rightarrow> n @ ''.wav'') \<mapsto> WavFile SAMPLING_RATE xs)\<rparr>)"
    by (simp add: create_note_def get_soundwave_def f default wavfile_write_def
        xs_def wave_def Let_def)
  then show ?thesis
    using len bound by (simp add: MAX_AMPLITUDE_def SAMPLING_RATE_def DURATION_SECONDS_def)
qed

theorem create_note_samples_witness:
  "(\<forall>x. \<bar>sin x :: real\<bar> \<le> 1) \<and> ''a4'' \<in> fst ` set NOTES
   \<and> common_timeline init = common_timeline init
   \<and> (\<exists>xs. fst (create_note sin init \<lparr>files = Map.empty, stdout = []\<rparr> ''a4'' None None) = Inr (Arr1 xs)
           \<and> length xs = 220500 \<and> (\<forall>s \<in> set xs. \<bar>sint s\<bar> \<le> 8192))"
proof -
  have a: "\<forall>x. \<bar>sin x :: real\<bar> \<le> 1" by simp
  have b: "''a4'' \<in> fst ` set NOTES" by (simp add: NOTES_def)
  show ?thesis
    using create_note_samples [OF a b refl, of "\<lparr>files = Map.empty, stdout = []\<rparr>" None] a b
    by (auto simp: MAX_AMPLITUDE_def)
qed


lemma create_note_unknown:
  assumes "note \<notin> fst ` set NOTES"
  shows "\<exists>m. create_note np_sin self w note name timeline
           = (Inl (ValueError m), self\<lparr>note_attr := Some note\<rparr>, w)"
proof -
  from assms have "NOTES_get note = None" by (simp add: NOTES_get_None)
  then show ?thesis by (simp add: create_note_def get_soundwave_def)
qed

text \<open>
  Claim C6. For a note that is not in the table, \<open>create_note\<close> fails with the error for an
  unknown note before it stores anything, so that the stored samples and the stored note
  are what they were before the call. The code assigns \<open>self.note\<close> before it resolves the
  frequency: on a factory that holds a wave of \<open>a4\<close>, the failed call for \<open>z9\<close> leaves the
  samples and the files as they were, and leaves \<open>z9\<close> as the stored note.
\<close>

theorem create_note_unknown_overwrites_note:
  "''z9'' \<notin> fst ` set NOTES
   \<and> (\<exists>m. create_note np_sin (init\<lparr>sound_wave := Some (Arr1 [7]), note_attr := Some ''a4''\<rparr>) w
              ''z9'' None None
          = (Inl (ValueError m),
             init\<lparr>sound_wave := Some (Arr1 [7]), note_attr := Some ''z9''\<rparr>, w))
   \<and> note_attr (init\<lparr>sound_wave := Some (Arr1 [7]), note_attr := Some ''z9''\<rparr>)
       \<noteq> note_attr (init\<lparr>sound_wave := Some (Arr1 [7]), note_attr := Some ''a4''\<rparr>)"
  using create_note_unknown [OF z9_absent, of np_sin
      "init\<lparr>sound_wave := Some (Arr1 [7]), note_attr := Some ''a4''\<rparr>" w None None]
  by (simp add: z9_absent)

lemma replace_eq_map: "replace old new s = map (\<lambda>c. if c = old then new else c) s"
  by (induction s) simp_all

text \<open>
  Claim C8. For every note of the table, \<open>create_note\<close> without an output name writes the
  audio file named by the note followed by \<open>_sin.wav\<close>, every \<open>#\<close> in it replaced by \<open>s\<close>
  (the note \<open>c#4\<close> goes to \<open>cs4_sin.wav\<close>); with an output name it writes the file named by
  that name followed by \<open>.wav\<close>. Nothing else of the world changes.
\<close>

theorem create_note_file_name:
  assumes "note \<in> fst ` set NOTES"
  shows "\<exists>xs self'.
           create_note np_sin self w note None timeline
             = (Inr (Arr1 xs), self',
                w\<lparr>files := (files w)(map (\<lambda>c. if c = CHR ''#'' then CHR ''s'' else c) (note @ ''_sin.wav'')
                                        \<mapsto> WavFile SAMPLING_RATE xs)\<rparr>)
         \<and> create_note np_sin self w note (Some name) timeline
             = (Inr (Arr1 xs), self',
                w\<lparr>files := (files w)(name @ ''.wav'' \<mapsto> WavFile SAMPLING_RATE xs)\<rparr>)"
proof -
  from assms have "NOTES_get note \<noteq> None" by (simp add: NOTES_get_None)
  then obtain f where f: "NOTES_get note = Some f" by blast
  show ?thesis
    by (simp add: create_note_def get_soundwave_def f wavfile_write_def Let_def replace_eq_map)
qed

theorem create_note_file_name_witness:
  "''c#4'' \<in> fst ` set NOTES
   \<and> map (\<lambda>c. if c = CHR ''#'' then CHR ''s'' else c) (''c#4'' @ ''_sin.wav'') = ''cs4_sin.wav''
   \<and> (\<exists>xs self'.
         create_note sin init \<lparr>files = Map.empty, stdout = []\<rparr> ''c#4'' None None
           = (Inr (Arr1 xs), self',
              \<lparr>files = [''cs4_sin.wav'' \<mapsto> WavFile 44100 xs], stdout = []\<rparr>)
       \<and> create_note sin init \<lparr>files = Map.empty, stdout = []\<rparr> ''c#4'' (Some ''tone'') None
           = (Inr (Arr1 xs), self',
              \<lparr>files = [''tone.wav'' \<mapsto> WavFile 44100 xs], stdout = []\<rparr>))"
proof -
  have a: "''c#4'' \<in> fst ` set NOTES" by (simp add: NOTES_def)
  show ?thesis
    using create_note_file_name [OF a, of sin init "\<lparr>files = Map.empty, stdout = []\<rparr>" None "''tone''"] a
    by (simp add: SAMPLING_RATE_def)
qed


section \<open>Loading\<close>

text \<open>
  Claim C7. Loading from a path that does not exist raises \<open>FileNotFoundError\<close>. Where the
  file exists and \<open>np.loadtxt\<close> cannot read it as int16 values, the error is printed and
  swallowed: the call returns normally, and the factory is what it was before.
\<close>

theorem read_wave_from_txt_errors:
  "(files w file_name = None \<longrightarrow>
      (\<exists>m. read_wave_from_txt self w file_name = (Inl (FileNotFoundError m), self, w)))
   \<and> (\<forall>c e. files w file_name = Some c \<and> np_loadtxt c = Inl e \<longrightarrow>
        read_wave_from_txt self w file_name
          = (Inr (), self,
             w\<lparr>stdout := stdout w @ [''Error loading wave from '' @ file_name @ '': '' @ error_str e]\<rparr>))"
  by (simp add: read_wave_from_txt_def print_def)

theorem read_wave_from_txt_errors_witness:
  "files \<lparr>files = [''bad.txt'' \<mapsto> TextFile ''abc''], stdout = []\<rparr> ''missing.txt'' = None
   \<and> (\<exists>m. read_wave_from_txt (init\<lparr>sound_wave := Some (Arr1 [7])\<rparr>)
            \<lparr>files = [''bad.txt'' \<mapsto> TextFile ''abc''], stdout = []\<rparr> ''missing.txt''
          = (Inl (FileNotFoundError m), init\<lparr>sound_wave := Some (Arr1 [7])\<rparr>,
             \<lparr>files = [''bad.txt'' \<mapsto> TextFile ''abc''], stdout = []\<rparr>))
   \<and> files \<lparr>files = [''bad.txt'' \<mapsto> TextFile ''abc''], stdout = []\<rparr> ''bad.txt'' = Some (TextFile ''abc'')
   \<and> np_loadtxt (TextFile ''abc'') = Inl (ValueError ''could not convert string to int16: abc'')
   \<and> fst (read_wave_from_txt (init\<lparr>sound_wave := Some (Arr1 [7])\<rparr>)
            \<lparr>files = [''bad.txt'' \<mapsto> TextFile ''abc''], stdout = []\<rparr> ''bad.txt'') = Inr ()
   \<and> fst (snd (read_wave_from_txt (init\<lparr>sound_wave := Some (Arr1 [7])\<rparr>)
            \<lparr>files = [''bad.txt'' \<mapsto> TextFile ''abc''], stdout = []\<rparr> ''bad.txt''))
        = init\<lparr>sound_wave := Some (Arr1 [7])\<rparr>"
proof -
  have l: "np_loadtxt (TextFile ''abc'') = Inl (ValueError ''could not convert string to int16: abc'')"
    by (simp add: np_loadtxt_def parse_int16_def parse_int_def digit_val_def)
  show ?thesis
    using read_wave_from_txt_errors
      [of "\<lparr>files = [''bad.txt'' \<mapsto> TextFile ''abc''], stdout = []\<rparr>" "''missing.txt''"
          "init\<lparr>sound_wave := Some (Arr1 [7])\<rparr>"]
      read_wave_from_txt_errors
      [of "\<lparr>files = [''bad.txt'' \<mapsto> TextFile ''abc''], stdout = []\<rparr>" "''bad.txt''"
          "init\<lparr>sound_wave := Some (Arr1 [7])\<rparr>"] l
    by simp
qed


section \<open>Normalizing\<close>

text \<open>
  Claim C9. Normalizing no waves at all prints \<open>No waves provided.\<close> and returns \<open>None\<close>;
  it does not raise.
\<close>

theorem normalize_no_waves:
  "normalize_sound_waves w [] = (Inr None, w\<lparr>stdout := stdout w @ [''No waves provided.'']\<rparr>)"
  by (simp add: normalize_sound_waves_def print_def)

lemma len_error: "len a = Inl e \<Longrightarrow> \<exists>m. e = TypeError m"
  by (auto simp: len_def split: option.splits ndarray.splits)

lemma min_from_error:
  "min_from n waves = Inl e \<Longrightarrow> \<exists>wave \<in> set waves. len (source_wave wave) = Inl e"
  by (induction waves arbitrary: n) (auto split: sum.splits)

lemma min_from_absent:
  assumes "Instance f \<in> set waves" and "sound_wave f = None"
  shows "\<exists>e. min_from n waves = Inl e"
  using assms
proof (induction waves arbitrary: n)
  case Nil
  then show ?case by simp
next
  case (Cons wave waves)
  show ?case
  proof (cases "len (source_wave wave)")
    case (Inl e)
    then show ?thesis by simp
  next
    case (Inr k)
    then have "wave \<noteq> Instance f"
      using Cons.prems(2) by (auto simp: len_def source_wave_def)
    then have "Instance f \<in> set waves" using Cons.prems(1) by simp
    then show ?thesis using Cons.IH Cons.prems(2) Inr by simp
  qed
qed

lemma min_length_of_absent:
  assumes "Instance f \<in> set waves" and "sound_wave f = None"
  shows "\<exists>e. min_length_of waves = Inl e \<and> (\<exists>wave \<in> set waves. len (source_wave wave) = Inl e)"
proof -
  from assms(1) obtain wave rest where waves: "waves = wave # rest"
    by (cases waves) auto
  show ?thesis
  proof (cases "len (source_wave wave)")
    case (Inl e)
    then show ?thesis by (auto simp: min_length_of_def waves)
  next
    case (Inr k)
    then have "wave \<noteq> Instance f"
      using assms(2) by (auto simp: len_def source_wave_def)
    then have "Instance f \<in> set rest" using assms(1) waves by simp
    then obtain e where e: "min_from k rest = Inl e"
      using min_from_absent [OF _ assms(2)] by blast
    then show ?thesis
      using min_from_error [OF e] Inr by (auto simp: min_length_of_def waves)
  qed
qed

text \<open>
  Claim C10. When one of the inputs is a factory that holds no wave, normalizing raises
  while it computes the minimum length: a \<open>TypeError\<close>, and where the other inputs are
  sequences it is the one of taking the length of \<open>None\<close>. The input is not skipped, nothing
  is printed and no \<open>None\<close> is returned.
\<close>

theorem normalize_absent_wave:
  assumes "Instance f \<in> set waves" and "sound_wave f = None"
  shows "\<exists>m. min_length_of waves = Inl (TypeError m)
           \<and> normalize_sound_waves w waves = (Inl (TypeError m), w)
           \<and> ((\<forall>wave \<in> set waves. \<forall>x. source_wave wave \<noteq> Some (Arr0 x))
                \<longrightarrow> m = ''object of type NoneType has no len()'')"
proof -
  obtain e wave where e: "min_length_of waves = Inl e"
    and wave: "wave \<in> set waves" "len (source_wave wave) = Inl e"
    using min_length_of_absent [OF assms] by blast
  obtain m where m: "e = TypeError m" using len_error [OF wave(2)] by blast
  have "m = ''object of type NoneType has no len()''"
    if "\<forall>wave \<in> set waves. \<forall>x. source_wave wave \<noteq> Some (Arr0 x)"
    using that wave m by (auto simp: len_def split: option.splits ndarray.splits)
  moreover have "waves \<noteq> []" using assms(1) by auto
  ultimately show ?thesis using e m by (auto simp: normalize_sound_waves_def)
qed

theorem normalize_absent_wave_witness:
  "Instance init \<in> set [Raw (Arr1 [1, 2]), Instance init] \<and> sound_wave init = None
   \<and> source_wave (Raw (Arr1 [1, 2])) = Some (Arr1 [1, 2]) \<and> source_wave (Instance init) = None
   \<and> normalize_sound_waves \<lparr>files = Map.empty, stdout = []\<rparr> [Raw (Arr1 [1, 2]), Instance init]
        = (Inl (TypeError ''object of type NoneType has no len()''), \<lparr>files = Map.empty, stdout = []\<rparr>)"
proof -
  have a: "Instance init \<in> set [Raw (Arr1 [1, 2]), Instance init]" by simp
  have b: "sound_wave init = None" by (simp add: init_def)
  have c: "\<forall>wave \<in> set [Raw (Arr1 [1, 2]), Instance init]. \<forall>x. source_wave wave \<noteq> Some (Arr0 x)"
    by (simp add: source_wave_def init_def)
  show ?thesis
    using normalize_absent_wave [OF a b, of "\<lparr>files = Map.empty, stdout = []\<rparr>"] a b c
    by (auto simp: source_wave_def)
qed


text \<open>
  Where every input holds a one-dimensional wave with at least one sample, normalizing
  returns one output per input, in order, each the input cut to the minimum length and
  passed through \<open>normalize_amplitude\<close>.
\<close>

lemma normalize_amplitude_length:
  "normalize_amplitude xs = Inr ys \<Longrightarrow> length ys = length xs"
  by (auto simp: normalize_amplitude_def Let_def split: sum.splits if_splits)

lemma normalize_amplitude_defined:
  assumes "xs \<noteq> []"
  shows "\<exists>ys. normalize_amplitude xs = Inr ys"
proof -
  obtain m where "np_max (map np_abs xs) = Inr m"
    using np_max_sint [of "map np_abs xs"] assms by auto
  then show ?thesis by (simp add: normalize_amplitude_def Let_def)
qed

lemma min_from_lengths:
  assumes "map source_wave waves = map (\<lambda>xs. Some (Arr1 xs)) xss"
  shows "min_from m waves = Inr (Min (insert m (length ` set xss)))"
  using assms
proof (induction waves arbitrary: m xss)
  case Nil
  then show ?case by simp
next
  case (Cons wave waves)
  then obtain xs rest where xss: "xss = xs # rest"
    and w: "source_wave wave = Some (Arr1 xs)"
    and r: "map source_wave waves = map (\<lambda>xs. Some (Arr1 xs)) rest"
    by (cases xss) auto
  have "min_from m (wave # waves) = min_from (min (length xs) m) waves"
    by (simp add: w len_def min_def)
  also have "\<dots> = Inr (Min (insert (min (length xs) m) (length ` set rest)))"
    by (rule Cons.IH [OF r])
  also have "Min (insert (min (length xs) m) (length ` set rest))
      = Min (insert m (length ` set xss))"
    by (cases "rest = []") (simp_all add: xss min.commute min.assoc min.left_commute)
  finally show ?case .
qed

lemma min_length_of_lengths:
  assumes "map source_wave waves = map (\<lambda>xs. Some (Arr1 xs)) xss" and "xss \<noteq> []"
  shows "min_length_of waves = Inr (Min (length ` set xss))"
proof -
  from assms obtain wave rest xs xrest where ws: "waves = wave # rest" and xss: "xss = xs # xrest"
    and w: "source_wave wave = Some (Arr1 xs)"
    and r: "map source_wave rest = map (\<lambda>xs. Some (Arr1 xs)) xrest"
    by (cases waves; cases xss) auto
  show ?thesis
    using min_from_lengths [OF r, of "length xs"] by (simp add: min_length_of_def ws xss w len_def)
qed

lemma normalize_loop_outputs:
  assumes "map source_wave waves = map (\<lambda>xs. Some (Arr1 xs)) xss"
    and "\<forall>xs \<in> set xss. take n xs \<noteq> []"
  shows "\<exists>outs. normalize_loop n waves acc = Inr (acc @ map Arr1 outs)
           \<and> list_all2 (\<lambda>xs ys. normalize_amplitude (take n xs) = Inr ys) xss outs"
  using assms
proof (induction waves arbitrary: xss acc)
  case Nil
  then show ?case by simp
next
  case (Cons wave waves)
  then obtain xs rest where xss: "xss = xs # rest"
    and w: "source_wave wave = Some (Arr1 xs)"
    and r: "map source_wave waves = map (\<lambda>xs. Some (Arr1 xs)) rest"
    by (cases xss) auto
  have "take n xs \<noteq> []" using Cons.prems(2) xss by simp
  then obtain ys where ys: "normalize_amplitude (take n xs) = Inr ys"
    using normalize_amplitude_defined by blast
  have "\<forall>xs \<in> set rest. take n xs \<noteq> []" using Cons.prems(2) xss by simp
  from Cons.IH [OF r this, of "acc @ [Arr1 ys]"]
  obtain outs where "normalize_loop n waves (acc @ [Arr1 ys]) = Inr ((acc @ [Arr1 ys]) @ map Arr1 outs)"
    and "list_all2 (\<lambda>xs ys. normalize_amplitude (take n xs) = Inr ys) rest outs"
    by blast
  then have "normalize_loop n (wave # waves) acc = Inr (acc @ map Arr1 (ys # outs))
      \<and> list_all2 (\<lambda>xs ys. normalize_amplitude (take n xs) = Inr ys) xss (ys # outs)"
    using ys by (simp add: normalize_wave_def w xss)
  then show ?case by blast
qed

lemma normalize_nonempty_waves:
  assumes src: "map source_wave waves = map (\<lambda>xs. Some (Arr1 xs)) xss"
    and ne: "xss \<noteq> []" and no_empty: "[] \<notin> set xss"
  defines "n \<equiv> Min (length ` set xss)"
  shows "\<exists>outs. normalize_sound_waves w waves = (Inr (Some (map Arr1 outs)), w)
           \<and> length outs = length waves
           \<and> (\<forall>i < length waves.
                 normalize_amplitude (take n (xss ! i)) = Inr (outs ! i) \<and> length (outs ! i) = n)"
proof -
  have len: "length waves = length xss" using src by (metis length_map)
  have waves_ne: "waves \<noteq> []" using len ne by auto
  have n_le: "n \<le> length xs" if "xs \<in> set xss" for xs
    unfolding n_def using that by (intro Min_le) auto
  have "n \<in> length ` set xss" unfolding n_def using ne by (intro Min_in) simp_all
  then have n_pos: "0 < n" using no_empty by (auto simp: image_iff)
  have "\<forall>xs \<in> set xss. take n xs \<noteq> []"
    using n_pos no_empty by auto
  from normalize_loop_outputs [OF src this, of "[]"]
  obtain outs where loop: "normalize_loop n waves [] = Inr (map Arr1 outs)"
    and all: "list_all2 (\<lambda>xs ys. normalize_amplitude (take n xs) = Inr ys) xss outs"
    by auto
  have l: "length outs = length xss" using all by (simp add: list_all2_lengthD)
  have each: "normalize_amplitude (take n (xss ! i)) = Inr (outs ! i) \<and> length (outs ! i) = n"
    if "i < length xss" for i
  proof -
    have a: "normalize_amplitude (take n (xss ! i)) = Inr (outs ! i)"
      using list_all2_nthD [OF all that] .
    have "length (outs ! i) = length (take n (xss ! i))"
      using normalize_amplitude_length [OF a] .
    also have "\<dots> = n" using n_le [of "xss ! i"] that by simp
    finally show ?thesis using a by simp
  qed
  have "normalize_sound_waves w waves = (Inr (Some (map Arr1 outs)), w)"
    using waves_ne min_length_of_lengths [OF src ne] loop
    by (simp add: normalize_sound_waves_def n_def)
  then show ?thesis using l len each by auto
qed

text \<open>
  Claim C3. For every non-empty list of wave sources, normalizing returns one output per
  input, in the order of the inputs, each the input cut to the minimum input length and
  then rescaled. The code takes \<open>np.max\<close> of every trimmed wave, which raises on an empty
  array: as soon as one input has no samples the minimum length is 0 and the call raises
  \<open>ValueError\<close> at the first wave instead of returning outputs of length 0.
\<close>

theorem normalize_empty_wave_raises:
  "normalize_sound_waves w [Raw (Arr1 [1, 2]), Raw (Arr1 [])]
     = (Inl (ValueError ''zero-size array to reduction operation maximum which has no identity''), w)
   \<and> normalize_sound_waves w [Raw (Arr1 [])]
     = (Inl (ValueError ''zero-size array to reduction operation maximum which has no identity''), w)"
  by (simp add: normalize_sound_waves_def min_length_of_def len_def source_wave_def
      normalize_wave_def normalize_amplitude_def np_max_def)

text \<open>
  Where no sample is \<open>-32768\<close> the peak is computed as intended, and the rescaling does what
  the claim says: every product stays in the int16 range, the cast truncates it toward
  zero, and the peak of the output is 8192 or, after the two roundings of the float64
  arithmetic, 8191.
\<close>

lemma normalize_amplitude_silent:
  assumes "xs \<noteq> []" and "\<forall>s \<in> set xs. sint s \<noteq> - 32768"
    and "Max ((\<lambda>s. \<bar>sint s\<bar>) ` set xs) = 0"
  shows "normalize_amplitude xs = Inr xs" and "\<forall>s \<in> set xs. s = 0"
proof -
  obtain m where m: "np_max (map np_abs xs) = Inr m" "sint m = Max ((\<lambda>s. \<bar>sint s\<bar>) ` set xs)"
    using np_max_abs [OF assms(1,2)] by blast
  then show "normalize_amplitude xs = Inr xs"
    using assms(3) by (simp add: normalize_amplitude_def)
  show "\<forall>s \<in> set xs. s = 0"
  proof
    fix s assume "s \<in> set xs"
    then have "\<bar>sint s\<bar> \<le> Max ((\<lambda>s. \<bar>sint s\<bar>) ` set xs)" by (intro Max_ge) auto
    then have "sint s = 0" using assms(3) by simp
    moreover have "word_of_int (sint s) = s" by simp
    ultimately show "s = 0" by (simp del: of_int_sint)
  qed
qed

lemma normalize_amplitude_peak:
  assumes ne: "xs \<noteq> []" and no_min: "\<forall>s \<in> set xs. sint s \<noteq> - 32768"
    and peak: "0 < Max ((\<lambda>s. \<bar>sint s\<bar>) ` set xs)"
  defines "P \<equiv> Max ((\<lambda>s. \<bar>sint s\<bar>) ` set xs)"
  defines "ys \<equiv> map (\<lambda>s. astype_int16 (fl (of_int (sint s) * fl (8192 / of_int P)))) xs"
  shows "normalize_amplitude xs = Inr ys"
    and "\<forall>i < length xs. sint (ys ! i) = trunc0 (fl (of_int (sint (xs ! i)) * fl (8192 / of_int P)))"
    and "Max ((\<lambda>y. \<bar>sint y\<bar>) ` set ys) = 8191 \<or> Max ((\<lambda>y. \<bar>sint y\<bar>) ` set ys) = 8192"
proof -
  obtain m where m: "np_max (map np_abs xs) = Inr m" "sint m = P"
    using np_max_abs [OF ne no_min] unfolding P_def by blast
  have P: "1 \<le> P" "P \<le> 32767"
    using peak sint_lt [of m] m(2) by (simp_all add: P_def)
  show "normalize_amplitude xs = Inr ys"
    using m P by (simp add: normalize_amplitude_def ys_def MAX_AMPLITUDE_def)
  define v where "v s = fl (of_int (sint s) * fl (8192 / of_int P))" for s :: int16
  have le_P: "\<bar>sint s\<bar> \<le> P" if "s \<in> set xs" for s
    unfolding P_def using that by (intro Max_ge) auto
  have v_lt: "\<bar>v s\<bar> < 8193" if "s \<in> set xs" for s
    unfolding v_def using scaled_sample_bounds(1) [OF P le_P [OF that]] .
  have out: "sint (astype_int16 (v s)) = trunc0 (v s)" "\<bar>trunc0 (v s)\<bar> \<le> 8192"
    if "s \<in> set xs" for s
    using sint_astype_int16_eq [OF v_lt [OF that]] by simp_all
  show "\<forall>i < length xs. sint (ys ! i) = trunc0 (fl (of_int (sint (xs ! i)) * fl (8192 / of_int P)))"
    using out(1) by (simp add: ys_def v_def)
  have ys_set: "(\<lambda>y. \<bar>sint y\<bar>) ` set ys = (\<lambda>s. \<bar>trunc0 (v s)\<bar>) ` set xs"
  proof -
    have "(\<lambda>y. \<bar>sint y\<bar>) ` set ys = (\<lambda>s. \<bar>sint (astype_int16 (v s))\<bar>) ` set xs"
      by (simp add: ys_def v_def image_image)
    also have "\<dots> = (\<lambda>s. \<bar>trunc0 (v s)\<bar>) ` set xs"
      using out(1) by (intro image_cong) simp_all
    finally show ?thesis .
  qed
  have fin: "finite ((\<lambda>s. \<bar>trunc0 (v s)\<bar>) ` set xs)" "(\<lambda>s. \<bar>trunc0 (v s)\<bar>) ` set xs \<noteq> {}"
    using ne by simp_all
  have upper: "Max ((\<lambda>s. \<bar>trunc0 (v s)\<bar>) ` set xs) \<le> 8192"
    using fin out(2) by (subst Max_le_iff) auto
  have "P \<in> (\<lambda>s. \<bar>sint s\<bar>) ` set xs"
    unfolding P_def using ne by (intro Max_in) simp_all
  then obtain s0 where s0: "s0 \<in> set xs" "\<bar>sint s0\<bar> = P" by auto
  have "8191 < \<bar>v s0\<bar>"
    unfolding v_def using scaled_sample_bounds(2) [OF P le_P [OF s0(1)] s0(2)] .
  then have "8191 \<le> \<bar>trunc0 (v s0)\<bar>" by (rule trunc0_ge)
  also have "\<dots> \<le> Max ((\<lambda>s. \<bar>trunc0 (v s)\<bar>) ` set xs)"
    using s0(1) by (intro Max_ge) auto
  finally show "Max ((\<lambda>y. \<bar>sint y\<bar>) ` set ys) = 8191 \<or> Max ((\<lambda>y. \<bar>sint y\<bar>) ` set ys) = 8192"
    using upper unfolding ys_set by linarith
qed

text \<open>
  Claim C4. A wave whose trimmed window has a peak absolute amplitude \<open>P > 0\<close> is rescaled by
  \<open>MAX_AMPLITUDE / P\<close>, so that its peak becomes \<open>MAX_AMPLITUDE\<close>; only a wave with peak 0 is
  returned as it is. The code takes the peak as \<open>np.max(np.abs(...))\<close> in int16, where the
  absolute value of \<open>-32768\<close> is \<open>-32768\<close>: the wave \<open>[-32768, 0]\<close> has peak 32768, the code
  finds the maximum 0 and returns the wave as it is.
\<close>

theorem normalize_int16_min_unchanged:
  "normalize_sound_waves w [Raw (Arr1 [- 32768, 0])] = (Inr (Some [Arr1 [- 32768, 0]]), w)
   \<and> sint (- 32768 :: int16) = - 32768
   \<and> np_max (map np_abs [- 32768, 0]) = Inr 0"
  by (simp add: normalize_sound_waves_def min_length_of_def len_def source_wave_def
      normalize_wave_def normalize_amplitude_def np_max_def np_abs_def)


section \<open>Saving and loading again\<close>

lemma digit_val_digit_char: "d < 10 \<Longrightarrow> digit_val (digit_char d) = Some d"
  by (simp add: digit_val_def digit_char_def)

lemma digit_char_neq:
  assumes "d < 10"
  shows "digit_char d \<noteq> CHR ''-''" and "digit_char d \<noteq> CHR 0x0A"
proof -
  have "of_char (digit_char d) = 48 + d" using assms by (simp add: digit_char_def)
  then show "digit_char d \<noteq> CHR ''-''" and "digit_char d \<noteq> CHR 0x0A" by auto
qed

lemma digits_chars: "c \<in> set (digits n) \<Longrightarrow> \<exists>d<10. c = digit_char d"
proof (induction n rule: digits.induct)
  case (1 n)
  show ?case
  proof (cases "n < 10")
    case True
    with "1.prems" show ?thesis by (auto simp: digits.simps [of n])
  next
    case False
    with "1.prems" have "c \<in> set (digits (n div 10)) \<or> c = digit_char (n mod 10)"
      by (auto simp: digits.simps [of n])
    then show ?thesis
    proof
      assume "c \<in> set (digits (n div 10))"
      with False "1.IH" show ?thesis by simp
    next
      assume "c = digit_char (n mod 10)"
      moreover have "n mod 10 < 10" by simp
      ultimately show ?thesis by blast
    qed
  qed
qed

lemma digits_nonempty: "digits n \<noteq> []"
  by (subst digits.simps) simp

lemma parse_nat_append:
  "parse_nat acc (xs @ ys) = (case parse_nat acc xs of None \<Rightarrow> None | Some k \<Rightarrow> parse_nat k ys)"
  by (induction xs arbitrary: acc) (simp_all split: option.splits)

lemma parse_nat_digits: "parse_nat 0 (digits n) = Some n"
proof (induction n rule: digits.induct)
  case (1 n)
  show ?case
  proof (cases "n < 10")
    case True
    then show ?thesis by (simp add: digits.simps [of n] digit_val_digit_char)
  next
    case False
    have "n mod 10 < 10" by simp
    then have "digit_val (digit_char (n mod 10)) = Some (n mod 10)" by (rule digit_val_digit_char)
    with False "1.IH" show ?thesis
      by (simp add: digits.simps [of n] parse_nat_append)
  qed
qed

lemma parse_int_fmt_d: "parse_int (fmt_d i) = Some i"
proof (cases "i < 0")
  case True
  then show ?thesis
    by (simp add: fmt_d_def parse_int_def digits_nonempty parse_nat_digits)
next
  case False
  obtain c cs where d: "digits (nat i) = c # cs"
    using digits_nonempty [of "nat i"] by (cases "digits (nat i)") auto
  then have "c \<in> set (digits (nat i))" by simp
  then obtain k where "k < 10" and "c = digit_char k" using digits_chars by metis
  then have "c \<noteq> CHR ''-''" using digit_char_neq(1) by simp
  moreover have "parse_nat 0 (c # cs) = Some (nat i)" using parse_nat_digits [of "nat i"] d by simp
  ultimately show ?thesis using False d by (simp add: fmt_d_def parse_int_def)
qed

lemma sint_int16_range: "- (2 ^ 15) \<le> sint (x :: int16)" "sint (x :: int16) < 2 ^ 15"
  using sint_ge [of x] sint_lt [of x] by simp_all

lemma parse_int16_fmt_d: "parse_int16 (fmt_d (sint x)) = Inr x"
  using sint_int16_range [of x] by (simp add: parse_int16_def parse_int_fmt_d)

lemma fmt_d_no_newline: "CHR 0x0A \<notin> set (fmt_d i)"
proof -
  have "CHR 0x0A \<notin> set (digits n)" for n
  proof
    assume "CHR 0x0A \<in> set (digits n)"
    then obtain k where "k < 10" and "CHR 0x0A = digit_char k" using digits_chars by metis
    then show False using digit_char_neq(2) [of k] by simp
  qed
  then show ?thesis by (simp add: fmt_d_def)
qed

lemma fmt_d_nonempty: "fmt_d i \<noteq> []"
  by (simp add: fmt_d_def digits_nonempty)

lemma splitlines_nonempty: "splitlines s \<noteq> []"
  by (induction s) (simp_all split: list.splits)

lemma splitlines_line:
  "CHR 0x0A \<notin> set l \<Longrightarrow> splitlines (l @ CHR 0x0A # rest) = l # splitlines rest"
proof (induction l)
  case Nil
  then show ?case by simp
next
  case (Cons c l)
  then have "c \<noteq> CHR 0x0A" and "CHR 0x0A \<notin> set l" by auto
  then show ?case using Cons.IH by simp
qed

lemma splitlines_savetxt:
  "splitlines (concat (map (\<lambda>x. fmt_d (sint x) @ [CHR 0x0A]) xs))
     = map (\<lambda>x. fmt_d (sint x)) xs @ [[]]"
  by (induction xs) (simp_all add: splitlines_line fmt_d_no_newline)

lemma parse_rows_fmt_d: "parse_rows (map (\<lambda>x. fmt_d (sint x)) xs) = Inr xs"
  by (induction xs) (simp_all add: parse_int16_fmt_d)

lemma np_loadtxt_savetxt:
  "np_loadtxt (TextFile (concat (map (\<lambda>x. fmt_d (sint (x :: int16)) @ [CHR 0x0A]) xs)))
     = Inr (case xs of [x] \<Rightarrow> Arr0 x | _ \<Rightarrow> Arr1 xs)"
proof -
  have "filter (\<lambda>l. l \<noteq> []) (map (\<lambda>x. fmt_d (sint x)) xs @ [[]]) = map (\<lambda>x. fmt_d (sint x)) xs"
    by (induction xs) (simp_all add: fmt_d_nonempty)
  then show ?thesis
    by (simp add: np_loadtxt_def splitlines_savetxt parse_rows_fmt_d split: list.splits)
qed

lemma save_load_round_trip:
  assumes wave: "sound_wave self = Some (Arr1 xs)" and not_wav: "upper file_type \<noteq> ''WAV''"
  shows "\<exists>w1 w2. save_wave self w file_name file_type = (Inr (), w1)
           \<and> read_wave_from_txt self w1 file_name
               = (Inr (), self\<lparr>sound_wave := Some (case xs of [x] \<Rightarrow> Arr0 x | _ \<Rightarrow> Arr1 xs)\<rparr>, w2)"
  using wave not_wav
  by (simp add: save_wave_def np_savetxt_def print_def read_wave_from_txt_def np_loadtxt_savetxt)


lemma fmt_d_5: "fmt_d 5 = ''5''"
  by code_simp

lemma upper_txt: "upper ''txt'' = ''TXT''"
  by code_simp

text \<open>
  Claim C5. Saving the current wave as text and loading the same path gives back a sample
  sequence equal to the saved one, element by element; the stored note is not touched.
  \<open>np.loadtxt\<close> is called without \<open>ndmin\<close>, so the single row of a wave of one sample is
  squeezed to a zero-dimensional array: after the round trip the factory holds a scalar,
  of which not even the length can be taken.
\<close>

theorem save_load_single_sample:
  "save_wave (init\<lparr>sound_wave := Some (Arr1 [5])\<rparr>) \<lparr>files = Map.empty, stdout = []\<rparr> ''w.txt'' ''txt''
     = (Inr (), \<lparr>files = [''w.txt'' \<mapsto> TextFile [CHR ''5'', CHR 0x0A]],
                  stdout = [''Wave saved as text file: w.txt'']\<rparr>)
   \<and> read_wave_from_txt (init\<lparr>sound_wave := Some (Arr1 [5])\<rparr>)
        \<lparr>files = [''w.txt'' \<mapsto> TextFile [CHR ''5'', CHR 0x0A]],
         stdout = [''Wave saved as text file: w.txt'']\<rparr> ''w.txt''
     = (Inr (), init\<lparr>sound_wave := Some (Arr0 5)\<rparr>,
        \<lparr>files = [''w.txt'' \<mapsto> TextFile [CHR ''5'', CHR 0x0A]],
         stdout = [''Wave saved as text file: w.txt'', ''Successfully loaded wave from w.txt'']\<rparr>)
   \<and> len (Some (Arr0 5)) = Inl (TypeError ''len() of unsized object'')"
  by (simp add: save_wave_def upper_txt np_savetxt_def fmt_d_5
      print_def read_wave_from_txt_def np_loadtxt_def parse_int16_def
      parse_int_def digit_val_def len_def)


end
